theory Spec2Isabelle
  imports Complex_Main
begin

section \<open>Paragon server: data model\<close>

text \<open>
  The Go type \<open>float64\<close> and the JavaScript number type are modelled by \<^typ>\<open>real\<close>:
  comparisons and sums are the exact ones, and NaN and the infinities are outside the model.
  Go's \<open>int\<close> is modelled by \<^typ>\<open>int\<close>; the only products formed are
  \<open>InputW * InputH\<close> and \<open>r * InputW + c\<close>, the size of and an index into an allocated
  layer, so no wrap-around arises.
\<close>

type_synonym tensor = "real list list"

text \<open>The fields of \<open>Server\<close> that stay fixed once \<open>main\<close> has built it. \<open>capSem\<close> is
  \<open>cap(s.sem)\<close>, \<open>Forward\<close> is what \<open>NN.Forward\<close> followed by \<open>NN.ExtractOutput\<close>
  computes for an image, \<open>WebGPUNative\<close> is \<open>NN.WebGPUNative\<close>.\<close>

record Server =
  InputW :: int
  InputH :: int
  capSem :: nat
  Forward :: "tensor \<Rightarrow> real list"
  WebGPUNative :: bool

record inferReq =
  Input :: "real list"
  Image :: tensor

text \<open>The errors of the handlers. Each \<open>fiber.NewError(400, msg)\<close> is one constructor, named
  after its message; \<open>Panic\<close> is a Go run-time panic.\<close>

datatype error =
    BodyParse
  | FlatLength int int
  | ImageShape int int
  | ProvideInput
  | ProvideBatch
  | NRange
  | Panic

section \<open>Helpers of main.go\<close>

subsection \<open>argmax64\<close>

function argmax64_loop :: "real list \<Rightarrow> nat \<Rightarrow> real \<Rightarrow> nat \<Rightarrow> nat" where
  "argmax64_loop v i best bestI =
     (if i < length v
      then (if v ! i > best then argmax64_loop v (i + 1) (v ! i) i
            else argmax64_loop v (i + 1) best bestI)
      else bestI)"
  by pat_completeness auto
termination
  by (relation "measure (\<lambda>(v, i, best, bestI). length v - i)") auto

declare argmax64_loop.simps [simp del]

definition argmax64 :: "real list \<Rightarrow> int" where
  "argmax64 v =
     (if length v = 0 then - 1 else int (argmax64_loop v 1 (v ! 0) 0))"

subsection \<open>reshape and normalizeInput\<close>

definition clamp01 :: "real \<Rightarrow> real" where
  "clamp01 v0 = (let v = (if v0 < 0 then 0 else v0) in if v > 1 then 1 else v)"

function reshape_cols :: "real list \<Rightarrow> int \<Rightarrow> int \<Rightarrow> int \<Rightarrow> real list \<Rightarrow> real list" where
  "reshape_cols flat W r c row =
     (if c < W
      then reshape_cols flat W r (c + 1) (row[nat c := clamp01 (flat ! nat (r * W + c))])
      else row)"
  by pat_completeness auto
termination
  by (relation "measure (\<lambda>(flat, W, r, c, row). nat (W - c))") auto

declare reshape_cols.simps [simp del]

function reshape_rows :: "real list \<Rightarrow> int \<Rightarrow> int \<Rightarrow> int \<Rightarrow> tensor \<Rightarrow> tensor" where
  "reshape_rows flat W H r img =
     (if r < H
      then reshape_rows flat W H (r + 1)
             (img[nat r := reshape_cols flat W r 0 (replicate (nat W) 0)])
      else img)"
  by pat_completeness auto
termination
  by (relation "measure (\<lambda>(flat, W, H, r, img). nat (H - r))") auto

declare reshape_rows.simps [simp del]

text \<open>\<open>make([][]float64, s.InputH)\<close> panics on a negative length; \<open>make([]float64, s.InputW)\<close>
  is reached only inside the row loop, where \<open>0 < InputH\<close>, and then the length test has
  made \<open>InputW\<close> non-negative.\<close>

definition reshape :: "Server \<Rightarrow> real list \<Rightarrow> error + tensor" where
  "reshape s flat =
     (if int (length flat) \<noteq> InputW s * InputH s
      then Inl (FlatLength (InputW s * InputH s) (int (length flat)))
      else if InputH s < 0 then Inl Panic
      else Inr (reshape_rows flat (InputW s) (InputH s) 0 (replicate (nat (InputH s)) [])))"

definition normalizeInput :: "Server \<Rightarrow> inferReq \<Rightarrow> error + tensor" where
  "normalizeInput s req =
     (if length (Image req) > 0 then
        (if int (length (Image req)) \<noteq> InputH s \<or> int (length (Image req ! 0)) \<noteq> InputW s
         then Inl (ImageShape (InputH s) (InputW s))
         else Inr (Image req))
      else if length (Input req) > 0 then reshape s (Input req)
      else Inl ProvideInput)"

subsection \<open>durMs\<close>

text \<open>A \<open>time.Duration\<close> is a number of nanoseconds; \<open>Microseconds\<close> truncates towards zero.\<close>

definition Microseconds :: "int \<Rightarrow> int" where
  "Microseconds d = (if d < 0 then - ((- d) div 1000) else d div 1000)"

definition durMs :: "int \<Rightarrow> real" where
  "durMs d = real_of_int (Microseconds d) / 1000"

section \<open>The load-test page: percentiles\<close>

text \<open>A JavaScript array read outside the array gives \<open>undefined\<close>, and \<open>0 / 0\<close> is NaN:
  both are \<open>None\<close> here. \<open>arr.slice()\<close> copies, and \<open>sort\<close> sorts the copy in place, so the
  function is modelled with the caller's array passed through: the first component of the
  result is \<open>arr\<close> as the call leaves it.\<close>

record summary =
  p50 :: "real option"
  p90 :: "real option"
  p99 :: "real option"
  mean :: "real option"
  max_val :: "real option"

definition js_index :: "real list \<Rightarrow> int \<Rightarrow> real option" where
  "js_index a k = (if 0 \<le> k \<and> k < int (length a) then Some (a ! nat k) else None)"

definition pick :: "real list \<Rightarrow> real \<Rightarrow> real option" where
  "pick a p =
     js_index a (max 0 (min (int (length a) - 1) \<lfloor>p * real_of_int (int (length a) - 1)\<rfloor>))"

definition js_div :: "real \<Rightarrow> nat \<Rightarrow> real option" where
  "js_div x k = (if k = 0 then None else Some (x / real k))"

definition percentiles_st :: "real list \<Rightarrow> real list \<times> summary" where
  "percentiles_st arr =
     (let a = sort arr;
          mean = js_div (foldl (\<lambda>s v. s + v) 0 a) (length a)
      in (arr,
          \<lparr>p50 = pick a (5 / 10), p90 = pick a (9 / 10), p99 = pick a (99 / 100),
           mean = mean, max_val = js_index a (int (length a) - 1)\<rparr>))"

definition percentiles :: "real list \<Rightarrow> summary" where
  "percentiles arr = snd (percentiles_st arr)"

section \<open>Properties of the helpers\<close>

subsection \<open>argmax64\<close>

lemma argmax64_loop_first_max:
  assumes "bestI < i" "i \<le> length v" "best = v ! bestI"
    "\<forall>j<i. v ! j \<le> v ! bestI" "\<forall>j<bestI. v ! j < v ! bestI"
  shows "argmax64_loop v i best bestI < length v \<and>
         (\<forall>j<length v. v ! j \<le> v ! argmax64_loop v i best bestI) \<and>
         (\<forall>j<argmax64_loop v i best bestI. v ! j < v ! argmax64_loop v i best bestI)"
  using assms
proof (induction v i best bestI rule: argmax64_loop.induct)
  case (1 v i best bestI)
  show ?case
  proof (cases "i < length v")
    case False
    have "argmax64_loop v i best bestI = bestI"
      using False by (subst argmax64_loop.simps) simp
    with "1.prems" False show ?thesis
      by simp
  next
    case True
    show ?thesis
    proof (cases "v ! i > best")
      case gt: True
      have a: "\<forall>j<i + 1. v ! j \<le> v ! i"
        using "1.prems" gt by (auto simp: less_Suc_eq intro: order_trans less_imp_le)
      have b: "\<forall>j<i. v ! j < v ! i"
        using "1.prems" gt by (auto intro: le_less_trans)
      have "argmax64_loop v i best bestI = argmax64_loop v (i + 1) (v ! i) i"
        using True gt by (subst argmax64_loop.simps) simp
      with "1.IH"(1) [OF True gt _ _ refl a b] True show ?thesis
        by simp
    next
      case ngt: False
      have a: "\<forall>j<i + 1. v ! j \<le> v ! bestI"
        using "1.prems" ngt by (auto simp: less_Suc_eq)
      have "argmax64_loop v i best bestI = argmax64_loop v (i + 1) best bestI"
        using True ngt by (subst argmax64_loop.simps) simp
      with "1.IH"(2) [OF True ngt _ _ "1.prems"(3) a "1.prems"(5)] True "1.prems"(1)
      show ?thesis
        by simp
    qed
  qed
qed

lemma Max_nth_eq:
  assumes "k < length (v :: real list)" "\<forall>j<length v. v ! j \<le> v ! k"
  shows "Max (set v) = v ! k"
proof (rule Max_eqI)
  show "finite (set v)" by simp
  show "\<And>y. y \<in> set v \<Longrightarrow> y \<le> v ! k" using assms(2) by (auto simp: in_set_conv_nth)
  show "v ! k \<in> set v" using assms(1) by simp
qed

lemma argmax64_nonempty:
  assumes ne: "v \<noteq> []"
  shows "0 \<le> argmax64 v \<and> nat (argmax64 v) < length v \<and>
      v ! nat (argmax64 v) = Max (set v) \<and>
      (\<forall>j<nat (argmax64 v). v ! j < Max (set v))"
proof -
  define k where "k = argmax64_loop v 1 (v ! 0) 0"
  have len: "1 \<le> length v" using ne by (cases v) auto
  have k: "k < length v \<and> (\<forall>j<length v. v ! j \<le> v ! k) \<and> (\<forall>j<k. v ! j < v ! k)"
    unfolding k_def
    by (rule argmax64_loop_first_max) (use len in auto)
  have am: "argmax64 v = int k" using ne by (simp add: argmax64_def k_def)
  have mx: "Max (set v) = v ! k" using k by (intro Max_nth_eq) auto
  show ?thesis using k by (simp add: am mx)
qed

text \<open>
  Claim C9. On every non-empty output vector \<open>argmax64\<close> returns an index of the vector
  that holds the maximum, and every smaller index holds a strictly smaller value: ties
  go to the first occurrence. On \<open>[0.2, 0.5, 0.5, 0.1]\<close> it returns 1.
\<close>

theorem argmax64_first_max:
  "(\<forall>v. v \<noteq> [] \<longrightarrow>
      0 \<le> argmax64 v \<and> nat (argmax64 v) < length v \<and>
      v ! nat (argmax64 v) = Max (set v) \<and>
      (\<forall>j<nat (argmax64 v). v ! j < Max (set v))) \<and>
   argmax64 [0.2, 0.5, 0.5, 0.1] = 1"
proof
  show "\<forall>v. v \<noteq> [] \<longrightarrow>
      0 \<le> argmax64 v \<and> nat (argmax64 v) < length v \<and>
      v ! nat (argmax64 v) = Max (set v) \<and>
      (\<forall>j<nat (argmax64 v). v ! j < Max (set v))"
    using argmax64_nonempty by blast
  show "argmax64 [0.2, 0.5, 0.5, 0.1] = 1"
    by (simp add: argmax64_def argmax64_loop.simps)
qed

theorem argmax64_first_max_witness:
  "[3, 7, 7, 2 :: real] \<noteq> [] \<and> argmax64 [3, 7, 7, 2] = 1 \<and>
   [3, 7, 7, 2 :: real] ! nat (argmax64 [3, 7, 7, 2]) = Max (set [3, 7, 7, 2])"
  using argmax64_first_max
  by (simp add: argmax64_def argmax64_loop.simps)

subsection \<open>normalizeInput\<close>

text \<open>
  Claim C6. The flattened form goes through \<open>reshape\<close>, which tests the length, builds
  \<open>InputH\<close> rows of \<open>InputW\<close> values and clamps each. The image form is returned as it
  came once its row count and the width of its first row match: with a 2 by 2 input, the
  image \<open>[[5, -3], [1]]\<close> is accepted, its second row one value long and its values
  outside \<open>[0, 1]\<close>.
\<close>

theorem normalizeInput_image_unchecked:
  "normalizeInput \<lparr>InputW = 2, InputH = 2, capSem = 1, Forward = (\<lambda>img. [1]), WebGPUNative = False\<rparr>
     \<lparr>Input = [], Image = [[5, - 3], [1]]\<rparr> = Inr [[5, - 3], [1]]"
  by (simp add: normalizeInput_def)

theorem normalizeInput_image_unchecked_witness:
  "\<exists>img. normalizeInput
       \<lparr>InputW = 2, InputH = 2, capSem = 1, Forward = (\<lambda>img. [1]), WebGPUNative = False\<rparr>
       \<lparr>Input = [], Image = [[5, - 3], [1]]\<rparr> = Inr img \<and>
     length (img ! 1) = 1 \<and> 1 < img ! 0 ! 0 \<and> img ! 0 ! 1 < 0"
  using normalizeInput_image_unchecked by simp

subsection \<open>percentiles\<close>

lemma sum_list_insort: "sum_list (insort x xs) = x + sum_list (xs :: real list)"
  by (induction xs) auto

lemma sum_list_sort: "sum_list (sort xs) = sum_list (xs :: real list)"
  by (induction xs) (auto simp: sum_list_insort)

lemma foldl_plus_sum_list: "foldl (\<lambda>s v. s + v) z xs = z + sum_list (xs :: real list)"
  by (induction xs arbitrary: z) auto

lemma sorted_last_Max:
  assumes "sorted (a :: real list)" "a \<noteq> []"
  shows "a ! (length a - 1) = Max (set a)"
proof (rule sym, rule Max_eqI)
  show "finite (set a)" by simp
  show "a ! (length a - 1) \<in> set a" using assms(2) by simp
  fix y assume "y \<in> set a"
  then obtain j where "j < length a" "y = a ! j" by (auto simp: in_set_conv_nth)
  then show "y \<le> a ! (length a - 1)"
    using assms by (auto intro!: sorted_nth_mono)
qed

lemma rank_in_range:
  assumes "0 \<le> p" "p \<le> 1" "0 < n"
  shows "0 \<le> \<lfloor>p * real_of_int (int n - 1)\<rfloor> \<and> \<lfloor>p * real_of_int (int n - 1)\<rfloor> \<le> int n - 1"
proof
  have m: "0 \<le> real_of_int (int n - 1)" using assms(3) by simp
  show "0 \<le> \<lfloor>p * real_of_int (int n - 1)\<rfloor>"
    using assms(1) m by simp
  have "p * real_of_int (int n - 1) \<le> 1 * real_of_int (int n - 1)"
    using assms(2) m by (intro mult_right_mono) auto
  then have "\<lfloor>p * real_of_int (int n - 1)\<rfloor> \<le> \<lfloor>real_of_int (int n - 1)\<rfloor>"
    by (intro floor_mono) simp
  then show "\<lfloor>p * real_of_int (int n - 1)\<rfloor> \<le> int n - 1" by simp
qed

lemma pick_rank:
  assumes "0 \<le> p" "p \<le> 1" "a \<noteq> []"
  shows "pick a p = Some (a ! nat \<lfloor>p * real_of_int (int (length a) - 1)\<rfloor>) \<and>
         nat \<lfloor>p * real_of_int (int (length a) - 1)\<rfloor> < length a"
proof -
  have n: "0 < length a" using assms(3) by simp
  define k where "k = \<lfloor>p * real_of_int (int (length a) - 1)\<rfloor>"
  from rank_in_range [OF assms(1,2) n]
  have k: "0 \<le> k" "k \<le> int (length a) - 1" by (simp_all add: k_def)
  then have "nat k < length a" by linarith
  moreover have "pick a p = js_index a (max 0 (min (int (length a) - 1) k))"
    by (simp only: pick_def k_def)
  then have "pick a p = Some (a ! nat k)"
    using k by (simp add: js_index_def min_def max_def)
  ultimately show ?thesis by (simp add: k_def)
qed

text \<open>
  Claim C8. On a non-empty array \<open>percentiles\<close> leaves the array as it was and returns,
  for each of 0.5, 0.9 and 0.99, the element of the ascending-sorted copy at index
  \<open>floor (p * (n - 1))\<close>, an index of the array (the clamp changes nothing), with the
  arithmetic mean and the maximum of the samples.
\<close>

theorem percentiles_nearest_rank:
  assumes "arr \<noteq> []"
  shows "percentiles_st arr =
     (arr, \<lparr>p50 = Some (sort arr ! nat \<lfloor>(5 / 10) * real_of_int (int (length arr) - 1)\<rfloor>),
            p90 = Some (sort arr ! nat \<lfloor>(9 / 10) * real_of_int (int (length arr) - 1)\<rfloor>),
            p99 = Some (sort arr ! nat \<lfloor>(99 / 100) * real_of_int (int (length arr) - 1)\<rfloor>),
            mean = Some (sum_list arr / real (length arr)),
            max_val = Some (Max (set arr))\<rparr>)
    \<and> nat \<lfloor>(5 / 10) * real_of_int (int (length arr) - 1)\<rfloor> < length arr
    \<and> nat \<lfloor>(9 / 10) * real_of_int (int (length arr) - 1)\<rfloor> < length arr
    \<and> nat \<lfloor>(99 / 100) * real_of_int (int (length arr) - 1)\<rfloor> < length arr"
proof -
  have ne: "sort arr \<noteq> []" using assms by (metis length_sort length_0_conv)
  have p1: "pick (sort arr) (5 / 10) = Some (sort arr ! nat \<lfloor>(5 / 10) * real_of_int (int (length arr) - 1)\<rfloor>)
      \<and> nat \<lfloor>(5 / 10) * real_of_int (int (length arr) - 1)\<rfloor> < length arr"
    using pick_rank [of "5 / 10" "sort arr"] ne by simp
  have p2: "pick (sort arr) (9 / 10) = Some (sort arr ! nat \<lfloor>(9 / 10) * real_of_int (int (length arr) - 1)\<rfloor>)
      \<and> nat \<lfloor>(9 / 10) * real_of_int (int (length arr) - 1)\<rfloor> < length arr"
    using pick_rank [of "9 / 10" "sort arr"] ne by simp
  have p3: "pick (sort arr) (99 / 100) = Some (sort arr ! nat \<lfloor>(99 / 100) * real_of_int (int (length arr) - 1)\<rfloor>)
      \<and> nat \<lfloor>(99 / 100) * real_of_int (int (length arr) - 1)\<rfloor> < length arr"
    using pick_rank [of "99 / 100" "sort arr"] ne by simp
  have mean: "js_div (foldl (\<lambda>s v. s + v) 0 (sort arr)) (length (sort arr)) =
      Some (sum_list arr / real (length arr))"
    using assms by (simp add: js_div_def foldl_plus_sum_list sum_list_sort)
  have mx: "js_index (sort arr) (int (length (sort arr)) - 1) = Some (Max (set arr))"
    using sorted_last_Max [of "sort arr"] ne assms
    by (simp add: js_index_def nat_diff_distrib')
  show ?thesis
    using p1 p2 p3 mean mx by (simp add: percentiles_st_def Let_def)
qed

theorem percentiles_nearest_rank_witness:
  "[3, 1, 2 :: real] \<noteq> [] \<and>
   percentiles_st [3, 1, 2] =
     ([3, 1, 2], \<lparr>p50 = Some 2, p90 = Some 2, p99 = Some 2, mean = Some 2, max_val = Some 3\<rparr>)"
  using percentiles_nearest_rank [of "[3, 1, 2]"]
  by simp

text \<open>
  Claim C7, as stated: on \<open>[10, 20, 30, 40, 50]\<close> the 90th percentile would be 50.
  The rank is \<open>floor (0.9 * 4) = 3\<close>, so it is 40.
\<close>

theorem percentiles_sample_p90_counterexample:
  "p90 (percentiles [10, 20, 30, 40, 50]) \<noteq> Some 50"
  by (simp add: percentiles_def percentiles_st_def pick_def js_index_def js_div_def)

text \<open>
  Claim C7, amended: on \<open>[10, 20, 30, 40, 50]\<close> \<open>percentiles\<close> yields p50 = 30,
  p90 = 40, mean = 30 and max = 50 (and p99 = 40).
\<close>

theorem percentiles_sample:
  "percentiles [10, 20, 30, 40, 50] =
     \<lparr>p50 = Some 30, p90 = Some 40, p99 = Some 40, mean = Some 30, max_val = Some 50\<rparr>"
  by (simp add: percentiles_def percentiles_st_def pick_def js_index_def js_div_def)


end
